theory Spec2Isabelle
  imports Main
begin

section \<open>The image upload gateway (main.go)\<close>

text \<open>
  The program is one Go file: a start-up sequence that reads its configuration from
  the environment, a middleware comparing the \<^verbatim>\<open>X-API-Key\<close> header with the
  configured key, a health handler and an upload handler that sends up to five image
  files to an S3-compatible bucket.

  The handlers are embedded as functions on an explicit state. Strings are byte
  lists, a nil slice is the empty list, and every call that leaves the program
  (the random identifier, the storage backend, the file system behind a spilled
  form part) is a parameter of the model.
\<close>

subsection \<open>Library functions the handlers call\<close>

text \<open>
  \<^verbatim>\<open>filepath.Ext\<close> walks the path backwards from its last byte, stops at a path
  separator (the slash, on a Unix system) and returns the suffix that starts at the
  first dot it meets; without such a dot the extension is empty. \<open>ext_scan\<close> is that loop on the reversed
  path, with the bytes already passed in its second argument.
\<close>

fun ext_scan :: "string \<Rightarrow> string \<Rightarrow> string" where
  "ext_scan [] seen = []"
| "ext_scan (c # cs) seen =
     (if c = CHR ''/'' then []
      else if c = CHR ''.'' then c # seen
      else ext_scan cs (c # seen))"

definition Ext :: "string \<Rightarrow> string" where
  "Ext path = ext_scan (rev path) []"

text \<open>
  \<^verbatim>\<open>strings.ToLower\<close> on bytes: the letters A to Z are lowered, every other
  byte is kept. Go also lowers letters outside ASCII; the only two that become an
  ASCII letter are U+0130 and U+212A, which become i and k, and neither letter
  occurs in an extension the program compares with.
\<close>

definition lower_byte :: "char \<Rightarrow> char" where
  "lower_byte c =
     (case map_of (zip ''ABCDEFGHIJKLMNOPQRSTUVWXYZ'' ''abcdefghijklmnopqrstuvwxyz'') c of
        None \<Rightarrow> c
      | Some l \<Rightarrow> l)"

definition ToLower :: "string \<Rightarrow> string" where
  "ToLower s = map lower_byte s"

text \<open>The verb \<^verbatim>\<open>%d\<close> of \<^verbatim>\<open>fmt.Sprintf\<close> on a length: decimal digits.\<close>

definition digit :: "nat \<Rightarrow> char" where
  "digit d = ''0123456789'' ! d"

fun itoa :: "nat \<Rightarrow> string" where
  "itoa n = (if n < 10 then [digit n] else itoa (n div 10) @ [digit (n mod 10)])"

declare itoa.simps [simp del]

subsection \<open>Configuration and start-up\<close>

text \<open>The package variables \<^verbatim>\<open>bucketName\<close>, \<^verbatim>\<open>publicURL\<close> and \<^verbatim>\<open>apiKey\<close>.\<close>

record config =
  bucketName :: string
  publicURL :: string
  apiKey :: string



subsection \<open>Requests, responses and the outside world\<close>

text \<open>
  A part of a multipart body as \<^verbatim>\<open>mime/multipart\<close> hands it to the form reader:
  the form field it belongs to, the file name of its content disposition (empty for
  a plain value) and its decoded bytes. \<open>TmpReadable\<close> says whether the temporary
  file can be opened again later, should the part be spilled to disk.
\<close>

record part =
  FormName :: string
  FileName :: string
  Data :: string
  TmpReadable :: bool

text \<open>
  \<^verbatim>\<open>multipart.FileHeader\<close>: \<open>tmpfile\<close> tells a header whose content lies in a
  temporary file from one whose content is held in memory.
\<close>

record FileHeader =
  Filename :: string
  Size :: int
  content :: string
  tmpfile :: bool
  readable :: bool

text \<open>\<^verbatim>\<open>multipart.Form\<close>; a key that is missing from a Go map reads as the nil slice.\<close>

record Form =
  Value :: "string \<Rightarrow> string list"
  File :: "string \<Rightarrow> FileHeader list"

text \<open>
  A request: \<open>Header\<close> is \<^verbatim>\<open>http.Header\<close> (a name without values reads as nil;
  the map is keyed by the header name as \<^verbatim>\<open>main.go\<close> writes it, the server
  matching names without regard to case), \<open>Body\<close> is \<open>None\<close> when the body
  cannot be read as \<^verbatim>\<open>multipart/form-data\<close> at all and the list of its parts
  otherwise.
\<close>

record request =
  Method :: string
  Path :: string
  Header :: "string \<Rightarrow> string list"
  Body :: "part list option"

datatype error = ErrParse | ErrMessageTooLarge | ErrOpen | ErrPut

text \<open>The values the handlers hand to \<^verbatim>\<open>json.NewEncoder(w).Encode\<close>.\<close>

record ApiResponse =
  Status :: int
  URLs :: "string list"
  Message :: string
  Failed :: "string list"

record HealthResponse =
  Success :: bool
  HealthMessage :: string

datatype json = JNull | JBool bool | JNum int | JStr string | JArr "json list"
  | JObj "(string \<times> json) list"

datatype payload =
    ApiJSON ApiResponse
  | HealthJSON HealthResponse
  | MapJSON "(string \<times> json) list"

text \<open>
  \<^verbatim>\<open>http.ResponseWriter\<close>: the header map, the status line once it is fixed, and
  the values encoded into the body so far.
\<close>

record ResponseWriter =
  hdr :: "string \<Rightarrow> string option"
  status :: "int option"
  written :: "payload list"

definition fresh :: ResponseWriter where
  "fresh = \<lparr>hdr = (\<lambda>k. None), status = None, written = []\<rparr>"

definition Header_Set :: "string \<Rightarrow> string \<Rightarrow> ResponseWriter \<Rightarrow> ResponseWriter" where
  "Header_Set k v rw = rw\<lparr>hdr := (hdr rw)(k \<mapsto> v)\<rparr>"

text \<open>Only the first \<^verbatim>\<open>WriteHeader\<close> fixes the status.\<close>

definition WriteHeader :: "int \<Rightarrow> ResponseWriter \<Rightarrow> ResponseWriter" where
  "WriteHeader code rw = (if status rw = None then rw\<lparr>status := Some code\<rparr> else rw)"

text \<open>Writing a body before any \<^verbatim>\<open>WriteHeader\<close> sends status 200.\<close>

definition Encode :: "payload \<Rightarrow> ResponseWriter \<Rightarrow> ResponseWriter" where
  "Encode v rw = (WriteHeader 200 rw)\<lparr>written := written (WriteHeader 200 rw) @ [v]\<rparr>"

text \<open>
  The encoder writes the members of a Go map sorted by key, byte by byte.
\<close>

fun bytes_le :: "string \<Rightarrow> string \<Rightarrow> bool" where
  "bytes_le [] ys = True"
| "bytes_le (x # xs) [] = False"
| "bytes_le (x # xs) (y # ys) =
     ((of_char x :: nat) < of_char y \<or> (x = y \<and> bytes_le xs ys))"

fun insert_member :: "string \<times> json \<Rightarrow> (string \<times> json) list \<Rightarrow> (string \<times> json) list" where
  "insert_member kv [] = [kv]"
| "insert_member kv (m # ms) =
     (if bytes_le (fst kv) (fst m) then kv # m # ms else m # insert_member kv ms)"

definition sorted_members :: "(string \<times> json) list \<Rightarrow> (string \<times> json) list" where
  "sorted_members kvs = foldr insert_member kvs []"

text \<open>
  The JSON value the encoder writes: for a struct by its tags (\<^verbatim>\<open>urls\<close> of a nil
  slice is \<^verbatim>\<open>null\<close>, \<^verbatim>\<open>failed\<close> is left out when empty, \<^verbatim>\<open>omitempty\<close>),
  for a map with its members in sorted order.
\<close>

definition to_json :: "payload \<Rightarrow> json" where
  "to_json v =
     (case v of
        ApiJSON a \<Rightarrow>
          JObj ([(''status'', JNum (Status a)),
                 (''urls'', if URLs a = [] then JNull else JArr (map JStr (URLs a))),
                 (''message'', JStr (Message a))]
                @ (if Failed a = [] then [] else [(''failed'', JArr (map JStr (Failed a)))]))
      | HealthJSON h \<Rightarrow>
          JObj [(''success'', JBool (Success h)), (''message'', JStr (HealthMessage h))]
      | MapJSON kvs \<Rightarrow> JObj (sorted_members kvs))"

text \<open>
  What lies outside the program. \<open>uuid_New k\<close> is the text of the \<open>k\<close>-th
  identifier \<^verbatim>\<open>uuid.New()\<close> hands out; \<open>PutObject_fails log input\<close> says whether
  the backend answers the call \<open>input\<close> with an error after the calls \<open>log\<close>;
  \<open>mux_own r\<close> is what the default mux of \<^verbatim>\<open>net/http\<close> writes when it answers
  the request \<open>r\<close> by itself (a redirect to the cleaned path, or not found), whose
  status line differs between releases of Go.
\<close>

record PutObjectInput =
  Bucket :: string
  Key :: string
  PutBody :: string
  ContentType :: string

record env =
  uuid_New :: "nat \<Rightarrow> string"
  PutObject_fails :: "PutObjectInput list \<Rightarrow> PutObjectInput \<Rightarrow> bool"
  mux_own :: "request \<Rightarrow> ResponseWriter \<Rightarrow> ResponseWriter"

text \<open>
  The state a request runs in: every \<^verbatim>\<open>PutObject\<close> call made so far, oldest
  first, and the number of identifiers drawn.
\<close>

record world =
  puts :: "PutObjectInput list"
  drawn :: nat

type_synonym handler = "request \<Rightarrow> ResponseWriter \<times> world \<Rightarrow> ResponseWriter \<times> world"

subsection \<open>Reading the multipart form\<close>

text \<open>
  \<^verbatim>\<open>Request.ParseMultipartForm(maxMemory)\<close>, as the documentation of
  \<^verbatim>\<open>net/http\<close> and of \<^verbatim>\<open>multipart.Reader.ReadForm\<close> gives it: the whole body
  is parsed; file parts are held in memory up to a total of \<open>maxMemory\<close> bytes and
  a file part that no longer fits is stored in a temporary file on disk; the parts
  that are not files may take \<open>maxMemory\<close> bytes plus 10 MB, and only when they do
  not fit the form is refused as too large. A part without a form name is skipped.
  The first budget below is the one for files in memory, the second the one for
  everything in memory. Recent releases of Go also charge the names and headers of
  the parts to the second budget and bound the number of parts; that bookkeeping is
  left out, and it refuses none of the forms evaluated below.
\<close>

fun readForm :: "part list \<Rightarrow> int \<Rightarrow> int \<Rightarrow> Form \<Rightarrow> error + Form" where
  "readForm [] maxFileMemoryBytes maxMemoryBytes form = Inr form"
| "readForm (p # ps) maxFileMemoryBytes maxMemoryBytes form =
     (let name = FormName p; n = int (length (Data p)) in
      if name = [] then readForm ps maxFileMemoryBytes maxMemoryBytes form
      else if FileName p = [] then
        (if maxMemoryBytes - n < 0 then Inl ErrMessageTooLarge
         else readForm ps maxFileMemoryBytes (maxMemoryBytes - n)
                (form\<lparr>Value := (Value form)(name := Value form name @ [Data p])\<rparr>))
      else if n > maxFileMemoryBytes then
        readForm ps maxFileMemoryBytes maxMemoryBytes
          (form\<lparr>File := (File form)(name := File form name @
             [\<lparr>Filename = FileName p, Size = n, content = Data p,
               tmpfile = True, readable = TmpReadable p\<rparr>])\<rparr>)
      else
        readForm ps (maxFileMemoryBytes - n) (maxMemoryBytes - n)
          (form\<lparr>File := (File form)(name := File form name @
             [\<lparr>Filename = FileName p, Size = n, content = Data p,
               tmpfile = False, readable = TmpReadable p\<rparr>])\<rparr>))"

definition ParseMultipartForm :: "int \<Rightarrow> request \<Rightarrow> error + Form" where
  "ParseMultipartForm maxMemory r =
     (case Body r of
        None \<Rightarrow> Inl ErrParse
      | Some parts \<Rightarrow>
          readForm parts maxMemory (maxMemory + push_bit 20 10)
            \<lparr>Value = (\<lambda>k. []), File = (\<lambda>k. [])\<rparr>)"

text \<open>
  \<^verbatim>\<open>FileHeader.Open\<close>: content held in memory always opens; content in a
  temporary file is opened through the file system, which may refuse.
\<close>

definition Open :: "FileHeader \<Rightarrow> error + string" where
  "Open fh =
     (if \<not> tmpfile fh then Inr (content fh)
      else if readable fh then Inr (content fh)
      else Inl ErrOpen)"

text \<open>\<^verbatim>\<open>Header.Get\<close>: the first value stored under the name, or the empty string.\<close>

definition Get :: "(string \<Rightarrow> string list) \<Rightarrow> string \<Rightarrow> string" where
  "Get h k = (case h k of [] \<Rightarrow> [] | v # vs \<Rightarrow> v)"

subsection \<open>The functions of main.go\<close>

definition isAllowedImage :: "FileHeader \<Rightarrow> bool" where
  "isAllowedImage header =
     (let ext = ToLower (Ext (Filename header));
          allowed = [''.jpg'' \<mapsto> True, ''.jpeg'' \<mapsto> True, ''.png'' \<mapsto> True, ''.webp'' \<mapsto> True]
      in case allowed ext of None \<Rightarrow> False | Some b \<Rightarrow> b)"

definition generateFileName :: "env \<Rightarrow> string \<Rightarrow> world \<Rightarrow> string \<times> world" where
  "generateFileName e original w =
     (let ext = Ext original
      in (''uploads/'' @ uuid_New e (drawn w) @ ext, w\<lparr>drawn := Suc (drawn w)\<rparr>))"

definition detectContentType :: "string \<Rightarrow> string" where
  "detectContentType filename =
     (let x = ToLower (Ext filename) in
      if x = ''.jpg'' \<or> x = ''.jpeg'' then ''image/jpeg''
      else if x = ''.png'' then ''image/png''
      else if x = ''.webp'' then ''image/webp''
      else ''application/octet-stream'')"

definition uploadToR2 ::
  "config \<Rightarrow> env \<Rightarrow> string \<Rightarrow> string \<Rightarrow> world \<Rightarrow> (error + string) \<times> world" where
  "uploadToR2 cfg e file filename w =
     (let input = \<lparr>Bucket = bucketName cfg, Key = filename, PutBody = file,
                    ContentType = detectContentType filename\<rparr>;
          err = PutObject_fails e (puts w) input;
          w' = w\<lparr>puts := puts w @ [input]\<rparr>
      in if err then (Inl ErrPut, w')
         else (Inr (publicURL cfg @ ''/'' @ filename), w'))"

definition sendJSONMulti ::
  "ResponseWriter \<Rightarrow> int \<Rightarrow> string list \<Rightarrow> string list \<Rightarrow> string \<Rightarrow> ResponseWriter" where
  "sendJSONMulti w st urls failed message =
     Encode (ApiJSON \<lparr>Status = st, URLs = urls, Message = message, Failed = failed\<rparr>)
       (WriteHeader st (Header_Set ''Content-Type'' ''application/json'' w))"

text \<open>
  One round of the loop over \<^verbatim>\<open>files\<close> in \<^verbatim>\<open>uploadHandler\<close>: the state is the
  two slices \<^verbatim>\<open>urls\<close> and \<^verbatim>\<open>failed\<close> and the world; each \<^verbatim>\<open>continue\<close> ends the
  round.
\<close>

definition loop_body ::
  "config \<Rightarrow> env \<Rightarrow> FileHeader \<Rightarrow> string list \<times> string list \<times> world
     \<Rightarrow> string list \<times> string list \<times> world" where
  "loop_body cfg e fileHeader s =
     (case s of (urls, failed, w) \<Rightarrow>
        if \<not> isAllowedImage fileHeader
        then (urls, failed @ [Filename fileHeader @ '': Invalid type''], w)
        else
          (case Open fileHeader of
             Inl err \<Rightarrow> (urls, failed @ [Filename fileHeader @ '': Failed to open''], w)
           | Inr file \<Rightarrow>
               (case generateFileName e (Filename fileHeader) w of (filename, w1) \<Rightarrow>
                  (case uploadToR2 cfg e file filename w1 of
                     (Inl err, w2) \<Rightarrow>
                       (urls, failed @ [Filename fileHeader @ '': Upload failed''], w2)
                   | (Inr url, w2) \<Rightarrow> (urls @ [url], failed, w2)))))"

fun range_files ::
  "config \<Rightarrow> env \<Rightarrow> FileHeader list \<Rightarrow> string list \<times> string list \<times> world
     \<Rightarrow> string list \<times> string list \<times> world" where
  "range_files cfg e [] s = s"
| "range_files cfg e (fileHeader # files) s =
     range_files cfg e files (loop_body cfg e fileHeader s)"

definition uploadHandler :: "config \<Rightarrow> env \<Rightarrow> handler" where
  "uploadHandler cfg e r s =
     (case s of (rw, w) \<Rightarrow>
        if Method r \<noteq> ''POST'' then (sendJSONMulti rw 405 [] [] ''Method not allowed'', w)
        else
          (case ParseMultipartForm (push_bit 20 50) r of
             Inl err \<Rightarrow> (sendJSONMulti rw 400 [] [] ''Invalid multipart form'', w)
           | Inr form \<Rightarrow>
               (let files = File form ''images'' in
                if length files = 0
                then (sendJSONMulti rw 400 [] [] ''At least 1 image required'', w)
                else if length files > 5
                then (sendJSONMulti rw 400 [] [] ''Maximum 5 images allowed'', w)
                else
                  (case range_files cfg e files ([], [], w) of (urls, failed, w') \<Rightarrow>
                     if length urls = 0
                     then (sendJSONMulti rw 400 [] failed ''All uploads failed'', w')
                     else if length failed > 0
                     then (sendJSONMulti rw 207 urls failed
                             (itoa (length urls) @ '' of '' @ itoa (length files)
                                @ '' images uploaded''), w')
                     else (sendJSONMulti rw 200 urls []
                             (itoa (length urls) @ '' image(s) uploaded successfully''),
                           w')))))"

definition healthHandler :: handler where
  "healthHandler r s =
     (case s of (rw, w) \<Rightarrow>
        (Encode (HealthJSON \<lparr>Success = True, HealthMessage = ''successfully connect''\<rparr>)
           (Header_Set ''Content-Type'' ''application/json'' rw), w))"

definition authMiddleware :: "config \<Rightarrow> handler \<Rightarrow> handler" where
  "authMiddleware cfg next r s =
     (case s of (rw, w) \<Rightarrow>
        (let key = Get (Header r) ''X-API-Key'' in
         if key \<noteq> apiKey cfg
         then (Encode (MapJSON [(''status'', JNum 401),
                                (''message'', JStr ''Unauthorized: Invalid or missing API key'')])
                 (WriteHeader 401 (Header_Set ''Content-Type'' ''application/json'' rw)), w)
         else next r (rw, w)))"

text \<open>
  The default mux cleans the path of a request before it looks for a handler:
  \<^verbatim>\<open>cleanPath\<close> of \<^verbatim>\<open>net/http\<close> roots the path, applies \<^verbatim>\<open>path.Clean\<close> and
  puts a trailing slash back. On a rooted path \<^verbatim>\<open>path.Clean\<close> drops the empty
  elements and the elements \<^verbatim>\<open>.\<close>, and drops each element \<^verbatim>\<open>..\<close> together
  with the element before it, if there is one.
\<close>

fun split_slash :: "string \<Rightarrow> string \<Rightarrow> string list" where
  "split_slash [] cur = [cur]"
| "split_slash (c # cs) cur =
     (if c = CHR ''/'' then cur # split_slash cs [] else split_slash cs (cur @ [c]))"

fun clean_elems :: "string list \<Rightarrow> string list \<Rightarrow> string list" where
  "clean_elems [] kept = kept"
| "clean_elems (x # xs) kept =
     (if x = [] \<or> x = ''.'' then clean_elems xs kept
      else if x = ''..'' then clean_elems xs (butlast kept)
      else clean_elems xs (kept @ [x]))"

fun join_slash :: "string list \<Rightarrow> string" where
  "join_slash [] = []"
| "join_slash (x # xs) = CHR ''/'' # x @ join_slash xs"

definition Clean_rooted :: "string \<Rightarrow> string" where
  "Clean_rooted p =
     (let kept = clean_elems (split_slash p []) [] in
      if kept = [] then ''/'' else join_slash kept)"

definition cleanPath :: "string \<Rightarrow> string" where
  "cleanPath p =
     (if p = [] then ''/''
      else
        (let p1 = (if hd p \<noteq> CHR ''/'' then CHR ''/'' # p else p);
             np = Clean_rooted p1
         in if last p1 = CHR ''/'' \<and> np \<noteq> ''/'' then np @ ''/'' else np))"

text \<open>
  A request is handed to a registered handler when its path is the cleaned one (a
  CONNECT request is not cleaned) and is rooted. Any other request the mux answers
  by itself, before any function of \<^verbatim>\<open>main.go\<close> runs.
\<close>

definition routed :: "request \<Rightarrow> bool" where
  "routed r =
     ((Method r = ''CONNECT'' \<or> cleanPath (Path r) = Path r) \<and> take 1 (Path r) = ''/'')"

text \<open>
  The two registrations of \<^verbatim>\<open>main\<close> on the default mux: \<^verbatim>\<open>/upload\<close> names one
  path, \<^verbatim>\<open>/\<close> names every rooted path no other pattern takes.
\<close>

definition ServeMux :: "config \<Rightarrow> env \<Rightarrow> handler" where
  "ServeMux cfg e r s =
     (if \<not> routed r then (mux_own e r (fst s), snd s)
      else if Path r = ''/upload'' then authMiddleware cfg (uploadHandler cfg e) r s
      else authMiddleware cfg healthHandler r s)"

subsection \<open>Notions the statements below are phrased in\<close>

text \<open>
  The call a round of the loop makes for the file \<open>fh\<close> when \<open>k\<close> identifiers have
  been drawn before it: key, body and content type as \<^verbatim>\<open>generateFileName\<close> and
  \<^verbatim>\<open>uploadToR2\<close> put them together.
\<close>

definition put_of :: "config \<Rightarrow> env \<Rightarrow> nat \<Rightarrow> FileHeader \<Rightarrow> PutObjectInput" where
  "put_of cfg e k fh =
     \<lparr>Bucket = bucketName cfg,
      Key = ''uploads/'' @ uuid_New e k @ Ext (Filename fh),
      PutBody = content fh,
      ContentType = detectContentType (''uploads/'' @ uuid_New e k @ Ext (Filename fh))\<rparr>"

text \<open>A file reaches the backend when its extension is allowed and it can be opened.\<close>

definition sendable :: "FileHeader \<Rightarrow> bool" where
  "sendable fh = (isAllowedImage fh \<and> (case Open fh of Inl err \<Rightarrow> False | Inr f \<Rightarrow> True))"

text \<open>
  The calls to expect from a list of files, whatever the backend answers: one for
  each sendable file, in the order of the files, each with the next identifier.
\<close>

fun expected_puts :: "config \<Rightarrow> env \<Rightarrow> nat \<Rightarrow> FileHeader list \<Rightarrow> PutObjectInput list" where
  "expected_puts cfg e k [] = []"
| "expected_puts cfg e k (fh # fs) =
     (if sendable fh then put_of cfg e k fh # expected_puts cfg e (Suc k) fs
      else expected_puts cfg e k fs)"

text \<open>
  What each file adds to the two slices: the round for the file is run on empty
  slices, in the world the earlier files have left behind.
\<close>

fun contributions ::
  "config \<Rightarrow> env \<Rightarrow> FileHeader list \<Rightarrow> world \<Rightarrow> (string list \<times> string list) list" where
  "contributions cfg e [] w = []"
| "contributions cfg e (fh # fs) w =
     (case loop_body cfg e fh ([], [], w) of
        (us, ms, w') \<Rightarrow> (us, ms) # contributions cfg e fs w')"

text \<open>
  An accepted upload request: sent to \<^verbatim>\<open>/upload\<close> with POST and the configured
  key, its form parses, and the field \<^verbatim>\<open>images\<close> holds the files \<open>files\<close>, one
  to five of them.
\<close>

definition authenticated :: "config \<Rightarrow> request \<Rightarrow> bool" where
  "authenticated cfg r = (Get (Header r) ''X-API-Key'' = apiKey cfg)"

definition images_of :: "request \<Rightarrow> FileHeader list option" where
  "images_of r =
     (case ParseMultipartForm (push_bit 20 50) r of
        Inl err \<Rightarrow> None
      | Inr form \<Rightarrow> Some (File form ''images''))"

definition accepted :: "config \<Rightarrow> request \<Rightarrow> FileHeader list \<Rightarrow> bool" where
  "accepted cfg r files =
     (Path r = ''/upload'' \<and> Method r = ''POST'' \<and> authenticated cfg r \<and>
      images_of r = Some files \<and> 1 \<le> length files \<and> length files \<le> 5)"

text \<open>The response writer after \<^verbatim>\<open>sendJSONMulti\<close> on a fresh one.\<close>

definition api_reply :: "int \<Rightarrow> string list \<Rightarrow> string list \<Rightarrow> string \<Rightarrow> ResponseWriter" where
  "api_reply st urls failed message =
     \<lparr>hdr = [''Content-Type'' \<mapsto> ''application/json''], status = Some st,
      written = [ApiJSON \<lparr>Status = st, URLs = urls, Message = message, Failed = failed\<rparr>]\<rparr>"


text \<open>The response writer after the health handler.\<close>

definition healthy :: ResponseWriter where
  "healthy =
     \<lparr>hdr = [''Content-Type'' \<mapsto> ''application/json''], status = Some 200,
      written = [HealthJSON \<lparr>Success = True, HealthMessage = ''successfully connect''\<rparr>]\<rparr>"

text \<open>The allowed extensions, as the claims list them.\<close>

definition allowed_ext :: "string \<Rightarrow> bool" where
  "allowed_ext name =
     (ToLower (Ext name) = ''.jpg'' \<or> ToLower (Ext name) = ''.jpeg'' \<or>
      ToLower (Ext name) = ''.png'' \<or> ToLower (Ext name) = ''.webp'')"

text \<open>
  The entry a file may add: one URL and no failure, or no URL and one failure that
  starts with the name of the file and ends in one of the three reasons.
\<close>

definition entry_of :: "FileHeader \<Rightarrow> string list \<times> string list \<Rightarrow> bool" where
  "entry_of fh c =
     ((length (fst c) = 1 \<and> snd c = []) \<or>
      (fst c = [] \<and>
       (snd c = [Filename fh @ '': Invalid type''] \<or>
        snd c = [Filename fh @ '': Failed to open''] \<or>
        snd c = [Filename fh @ '': Upload failed''])))"

text \<open>The URL of the object stored for \<open>fh\<close> under the \<open>k\<close>-th identifier.\<close>

definition url_of :: "config \<Rightarrow> env \<Rightarrow> nat \<Rightarrow> FileHeader \<Rightarrow> string" where
  "url_of cfg e k fh = publicURL cfg @ ''/uploads/'' @ uuid_New e k @ Ext (Filename fh)"

subsection \<open>Concrete inputs\<close>


definition cfg0 :: config where
  "cfg0 = \<lparr>bucketName = ''bucket'', publicURL = ''https://cdn.example'', apiKey = ''secret''\<rparr>"

text \<open>
  Identifiers id0, id1, ...; a backend that refuses the second call it gets; a mux
  that redirects with status 301.
\<close>

definition env0 :: env where
  "env0 =
     \<lparr>uuid_New = (\<lambda>k. ''id'' @ itoa k), PutObject_fails = (\<lambda>log input. length log = 1),
      mux_own = (\<lambda>r rw. WriteHeader 301 (Header_Set ''Location'' (cleanPath (Path r)) rw))\<rparr>"

definition w0 :: world where
  "w0 = \<lparr>puts = [], drawn = 0\<rparr>"

definition with_key :: "string \<Rightarrow> string list" where
  "with_key name = (if name = ''X-API-Key'' then [''secret''] else [])"

definition image :: "string \<Rightarrow> string \<Rightarrow> part" where
  "image name bytes = \<lparr>FormName = ''images'', FileName = name, Data = bytes, TmpReadable = True\<rparr>"

definition in_memory :: "string \<Rightarrow> string \<Rightarrow> FileHeader" where
  "in_memory name bytes =
     \<lparr>Filename = name, Size = int (length bytes), content = bytes, tmpfile = False,
      readable = True\<rparr>"

text \<open>Four files: stored, wrong type, refused by the backend, stored.\<close>

definition req_mixed :: request where
  "req_mixed =
     \<lparr>Method = ''POST'', Path = ''/upload'', Header = with_key,
      Body = Some [image ''a.png'' ''AA'', image ''b.gif'' ''BB'', image ''c.JPG'' ''CC'',
                   image ''d.webp'' ''DD'']\<rparr>"

definition files_mixed :: "FileHeader list" where
  "files_mixed =
     [in_memory ''a.png'' ''AA'', in_memory ''b.gif'' ''BB'', in_memory ''c.JPG'' ''CC'',
      in_memory ''d.webp'' ''DD'']"

text \<open>No file at all, and six files.\<close>

definition req_none :: request where
  "req_none = \<lparr>Method = ''POST'', Path = ''/upload'', Header = with_key, Body = Some []\<rparr>"

definition req_six :: request where
  "req_six =
     \<lparr>Method = ''POST'', Path = ''/upload'', Header = with_key,
      Body = Some [image ''1.png'' ''A'', image ''2.png'' ''B'', image ''3.png'' ''C'',
                   image ''4.png'' ''D'', image ''5.png'' ''E'', image ''6.png'' ''F'']\<rparr>"

text \<open>
  The same upload without the key header, the same again sent to a path the mux has
  to clean, and a health check.
\<close>

definition req_nokey :: request where
  "req_nokey = req_mixed\<lparr>Header := (\<lambda>name. [])\<rparr>"

definition req_unclean :: request where
  "req_unclean = req_nokey\<lparr>Path := ''//upload''\<rparr>"

definition req_health :: request where
  "req_health = \<lparr>Method = ''GET'', Path = ''/'', Header = with_key, Body = None\<rparr>"

text \<open>
  One image of 50 MiB and one byte, whose temporary file can be read back, and the
  same image when the temporary file cannot be opened.
\<close>

definition req_big :: request where
  "req_big =
     \<lparr>Method = ''POST'', Path = ''/upload'', Header = with_key,
      Body = Some [image ''a.png'' (replicate 52428801 (CHR ''x''))]\<rparr>"

definition req_lost :: request where
  "req_lost =
     \<lparr>Method = ''POST'', Path = ''/upload'', Header = with_key,
      Body = Some [(image ''a.png'' (replicate 52428801 (CHR ''x'')))\<lparr>TmpReadable := False\<rparr>]\<rparr>"

definition file_lost :: FileHeader where
  "file_lost =
     \<lparr>Filename = ''a.png'', Size = 52428801, content = replicate 52428801 (CHR ''x''),
      tmpfile = True, readable = False\<rparr>"

text \<open>A single image that is stored, and a single file of the wrong type.\<close>

definition req_one :: request where
  "req_one =
     \<lparr>Method = ''POST'', Path = ''/upload'', Header = with_key,
      Body = Some [image ''a.png'' ''AA'']\<rparr>"

definition req_gif :: request where
  "req_gif =
     \<lparr>Method = ''POST'', Path = ''/upload'', Header = with_key,
      Body = Some [image ''b.gif'' ''BB'']\<rparr>"

section \<open>Properties\<close>

subsection \<open>One round of the loop\<close>

lemma Open_Inr: "Open fh = Inr f \<Longrightarrow> f = content fh"
  by (auto simp: Open_def split: if_splits)

lemma isAllowedImage_ext: "isAllowedImage fh = allowed_ext (Filename fh)"
  by (auto simp: isAllowedImage_def allowed_ext_def Let_def)

lemma loop_body_invalid:
  "\<not> isAllowedImage fh \<Longrightarrow>
   loop_body cfg e fh (urls, failed, w) = (urls, failed @ [Filename fh @ '': Invalid type''], w)"
  by (simp add: loop_body_def)

lemma loop_body_unopened:
  "isAllowedImage fh \<Longrightarrow> Open fh = Inl err \<Longrightarrow>
   loop_body cfg e fh (urls, failed, w) = (urls, failed @ [Filename fh @ '': Failed to open''], w)"
  by (simp add: loop_body_def)

lemma loop_body_sent:
  "isAllowedImage fh \<Longrightarrow> Open fh = Inr f \<Longrightarrow>
   loop_body cfg e fh (urls, failed, w) =
     (if PutObject_fails e (puts w) (put_of cfg e (drawn w) fh)
      then (urls, failed @ [Filename fh @ '': Upload failed''],
            w\<lparr>drawn := Suc (drawn w), puts := puts w @ [put_of cfg e (drawn w) fh]\<rparr>)
      else (urls @ [publicURL cfg @ ''/uploads/'' @ uuid_New e (drawn w) @ Ext (Filename fh)], failed,
            w\<lparr>drawn := Suc (drawn w), puts := puts w @ [put_of cfg e (drawn w) fh]\<rparr>))"
  by (auto simp: loop_body_def generateFileName_def uploadToR2_def put_of_def Let_def dest: Open_Inr)

lemma loop_body_cases:
  obtains (invalid) "\<not> isAllowedImage fh" "\<not> sendable fh"
      "loop_body cfg e fh (urls, failed, w) = (urls, failed @ [Filename fh @ '': Invalid type''], w)"
  | (unopened) "isAllowedImage fh" "\<not> sendable fh"
      "loop_body cfg e fh (urls, failed, w) = (urls, failed @ [Filename fh @ '': Failed to open''], w)"
  | (refused) "sendable fh" "PutObject_fails e (puts w) (put_of cfg e (drawn w) fh)"
      "loop_body cfg e fh (urls, failed, w) =
         (urls, failed @ [Filename fh @ '': Upload failed''],
          w\<lparr>drawn := Suc (drawn w), puts := puts w @ [put_of cfg e (drawn w) fh]\<rparr>)"
  | (stored) "sendable fh" "\<not> PutObject_fails e (puts w) (put_of cfg e (drawn w) fh)"
      "loop_body cfg e fh (urls, failed, w) =
         (urls @ [publicURL cfg @ ''/uploads/'' @ uuid_New e (drawn w) @ Ext (Filename fh)], failed,
          w\<lparr>drawn := Suc (drawn w), puts := puts w @ [put_of cfg e (drawn w) fh]\<rparr>)"
proof (cases "isAllowedImage fh")
  case False
  then show ?thesis using invalid loop_body_invalid by (simp add: sendable_def)
next
  case allowed: True
  show ?thesis
  proof (cases "Open fh")
    case (Inl err)
    then show ?thesis using allowed unopened loop_body_unopened by (simp add: sendable_def)
  next
    case (Inr f)
    then have s: "sendable fh" using allowed by (simp add: sendable_def)
    show ?thesis
      using loop_body_sent [OF allowed Inr, of cfg e urls failed w] s refused stored
      by (cases "PutObject_fails e (puts w) (put_of cfg e (drawn w) fh)") simp_all
  qed
qed

lemma loop_body_acc:
  "loop_body cfg e fh ([], [], w) = (us, ms, w') \<Longrightarrow>
   loop_body cfg e fh (urls, failed, w) = (urls @ us, failed @ ms, w')"
  by (auto simp: loop_body_def split: if_splits sum.splits prod.splits)

lemma loop_body_one:
  "loop_body cfg e fh ([], [], w) = (us, ms, w') \<Longrightarrow> length us + length ms = 1"
  by (cases rule: loop_body_cases [of fh cfg e "[]" "[]" w]) auto

subsection \<open>The whole loop\<close>

lemma range_files_count:
  "range_files cfg e files (urls, failed, w) = (urls', failed', w') \<Longrightarrow>
   length urls' + length failed' = length urls + length failed + length files"
proof (induction files arbitrary: urls failed w)
  case Nil
  then show ?case by simp
next
  case (Cons fh files)
  show ?case
    by (cases rule: loop_body_cases [of fh cfg e urls failed w])
       (use Cons in \<open>auto dest!: Cons.IH\<close>)
qed

lemma range_files_puts:
  "range_files cfg e files (urls, failed, w) = (urls', failed', w') \<Longrightarrow>
   puts w' = puts w @ expected_puts cfg e (drawn w) files \<and>
   drawn w' = drawn w + length (filter sendable files)"
proof (induction files arbitrary: urls failed w)
  case Nil
  then show ?case by simp
next
  case (Cons fh files)
  show ?case
    by (cases rule: loop_body_cases [of fh cfg e urls failed w])
       (use Cons in \<open>auto dest!: Cons.IH\<close>)
qed

lemma range_files_contributions:
  "range_files cfg e files (urls, failed, w) = (urls', failed', w') \<Longrightarrow>
   urls' = urls @ concat (map fst (contributions cfg e files w)) \<and>
   failed' = failed @ concat (map snd (contributions cfg e files w))"
proof (induction files arbitrary: urls failed w)
  case Nil
  then show ?case by simp
next
  case (Cons fh files)
  obtain us ms w1 where b: "loop_body cfg e fh ([], [], w) = (us, ms, w1)"
    by (metis prod_cases3)
  from Cons.prems loop_body_acc [OF b, of urls failed]
  have "range_files cfg e files (urls @ us, failed @ ms, w1) = (urls', failed', w')"
    by simp
  from Cons.IH [OF this] b show ?case by simp
qed

lemma contributions_length: "length (contributions cfg e files w) = length files"
  by (induction files arbitrary: w) (auto split: prod.splits)

lemma contributions_one:
  "x \<in> set (contributions cfg e files w) \<Longrightarrow> length (fst x) + length (snd x) = 1"
  by (induction files arbitrary: w) (auto split: prod.splits dest: loop_body_one [OF sym])

subsection \<open>The handlers\<close>

lemma sendJSONMulti_fresh: "sendJSONMulti fresh st urls failed msg = api_reply st urls failed msg"
  by (simp add: sendJSONMulti_def api_reply_def Encode_def WriteHeader_def Header_Set_def fresh_def)

lemma authMiddleware_pass:
  "authenticated cfg r \<Longrightarrow> authMiddleware cfg next r (rw, w) = next r (rw, w)"
  by (simp add: authMiddleware_def authenticated_def)


lemma cleanPath_upload: "cleanPath ''/upload'' = ''/upload''"
  by (simp add: cleanPath_def Clean_rooted_def)

lemma cleanPath_root: "cleanPath ''/'' = ''/''"
  by (simp add: cleanPath_def Clean_rooted_def)

lemma ServeMux_upload:
  "Path r = ''/upload'' \<Longrightarrow> ServeMux cfg e r s = authMiddleware cfg (uploadHandler cfg e) r s"
  by (simp add: ServeMux_def routed_def cleanPath_upload)

lemma ServeMux_root:
  "Path r = ''/'' \<Longrightarrow> ServeMux cfg e r s = authMiddleware cfg healthHandler r s"
  by (simp add: ServeMux_def routed_def cleanPath_root)

lemma serve_accepted:
  assumes "accepted cfg r files"
    and "range_files cfg e files ([], [], w) = (urls, failed, w')"
  shows "ServeMux cfg e r (fresh, w) =
     (if urls = [] then (api_reply 400 [] failed ''All uploads failed'', w')
      else if failed \<noteq> [] then
        (api_reply 207 urls failed
           (itoa (length urls) @ '' of '' @ itoa (length files) @ '' images uploaded''), w')
      else (api_reply 200 urls []
              (itoa (length urls) @ '' image(s) uploaded successfully''), w'))"
  using assms
  by (auto simp: accepted_def images_of_def ServeMux_upload authMiddleware_pass uploadHandler_def
      sendJSONMulti_fresh split: sum.splits)

lemma serve_accepted_reply:
  assumes "accepted cfg r files"
    and "range_files cfg e files ([], [], w) = (urls, failed, w')"
  shows "\<exists>st msg. ServeMux cfg e r (fresh, w) = (api_reply st urls failed msg, w')"
  using serve_accepted [OF assms] by (cases "urls = []"; cases "failed = []") auto

subsection \<open>The concrete inputs, evaluated\<close>

lemmas eval_defs =
  ServeMux_upload ServeMux_root authMiddleware_def uploadHandler_def healthHandler_def sendJSONMulti_def
  Encode_def WriteHeader_def Header_Set_def fresh_def Get_def ParseMultipartForm_def
  push_bit_eq_mult isAllowedImage_def Ext_def ToLower_def lower_byte_def Open_def
  loop_body_def generateFileName_def uploadToR2_def detectContentType_def
  itoa.simps digit_def Let_def
  cfg0_def env0_def w0_def with_key_def image_def in_memory_def

lemma images_mixed: "images_of req_mixed = Some files_mixed"
  by (simp add: images_of_def req_mixed_def files_mixed_def eval_defs)

lemma accepted_mixed: "accepted cfg0 req_mixed files_mixed"
  by (simp add: accepted_def images_mixed authenticated_def)
     (simp add: req_mixed_def files_mixed_def Get_def with_key_def cfg0_def)

lemma serve_mixed:
  "ServeMux cfg0 env0 req_mixed (fresh, w0) =
     (api_reply 207
        [''https://cdn.example/uploads/id0.png'', ''https://cdn.example/uploads/id2.webp'']
        [''b.gif: Invalid type'', ''c.JPG: Upload failed'']
        ''2 of 4 images uploaded'',
      \<lparr>puts =
         [\<lparr>Bucket = ''bucket'', Key = ''uploads/id0.png'', PutBody = ''AA'',
           ContentType = ''image/png''\<rparr>,
          \<lparr>Bucket = ''bucket'', Key = ''uploads/id1.JPG'', PutBody = ''CC'',
           ContentType = ''image/jpeg''\<rparr>,
          \<lparr>Bucket = ''bucket'', Key = ''uploads/id2.webp'', PutBody = ''DD'',
           ContentType = ''image/webp''\<rparr>],
       drawn = 3\<rparr>)"
  by (simp add: req_mixed_def api_reply_def eval_defs)




lemma images_none: "images_of req_none = Some []"
  by (simp add: images_of_def req_none_def eval_defs)

lemma images_six:
  "images_of req_six =
     Some [in_memory ''1.png'' ''A'', in_memory ''2.png'' ''B'', in_memory ''3.png'' ''C'',
           in_memory ''4.png'' ''D'', in_memory ''5.png'' ''E'', in_memory ''6.png'' ''F'']"
  by (simp add: images_of_def req_six_def eval_defs)

lemma with_key_authenticated: "Header r = with_key \<Longrightarrow> authenticated cfg0 r"
  by (simp add: authenticated_def Get_def with_key_def cfg0_def)

subsection \<open>Requests and their answers\<close>

text \<open>
  C1. An accepted upload request with N files, N from one to five, is answered with
  one entry per file: the lengths of \<^verbatim>\<open>urls\<close> and \<^verbatim>\<open>failed\<close> add up to N. No
  failure stops the loop: the calls made to the backend are those of all sendable
  files, in order, whatever the backend answered to the earlier ones.
\<close>

theorem upload_accounts_for_every_file:
  assumes "accepted cfg r files"
  shows "\<exists>resp. written (fst (ServeMux cfg e r (fresh, w))) = [ApiJSON resp] \<and>
           length (URLs resp) + length (Failed resp) = length files \<and>
           puts (snd (ServeMux cfg e r (fresh, w))) = puts w @ expected_puts cfg e (drawn w) files"
proof -
  obtain urls failed w' where run: "range_files cfg e files ([], [], w) = (urls, failed, w')"
    by (metis prod_cases3)
  from serve_accepted_reply [OF assms run] obtain st msg
    where reply: "ServeMux cfg e r (fresh, w) = (api_reply st urls failed msg, w')"
    by blast
  from range_files_count [OF run] have "length urls + length failed = length files"
    by simp
  moreover from range_files_puts [OF run]
  have "puts w' = puts w @ expected_puts cfg e (drawn w) files"
    by simp
  ultimately show ?thesis
    using reply by (simp add: api_reply_def)
qed

theorem upload_accounts_for_every_file_witness:
  "accepted cfg0 req_mixed files_mixed \<and> length files_mixed = 4 \<and>
   (\<exists>resp. written (fst (ServeMux cfg0 env0 req_mixed (fresh, w0))) = [ApiJSON resp] \<and>
      length (URLs resp) + length (Failed resp) = length files_mixed \<and>
      puts (snd (ServeMux cfg0 env0 req_mixed (fresh, w0))) =
        puts w0 @ expected_puts cfg0 env0 (drawn w0) files_mixed) \<and>
   map Key (expected_puts cfg0 env0 (drawn w0) files_mixed) =
     [''uploads/id0.png'', ''uploads/id1.JPG'', ''uploads/id2.webp'']"
proof -
  have n: "length files_mixed = 4"
    by (simp add: files_mixed_def)
  have k: "map Key (expected_puts cfg0 env0 (drawn w0) files_mixed) =
      [''uploads/id0.png'', ''uploads/id1.JPG'', ''uploads/id2.webp'']"
    by (simp add: files_mixed_def sendable_def put_of_def eval_defs)
  show ?thesis
    using accepted_mixed n k upload_accounts_for_every_file [OF accepted_mixed, of env0 w0]
    by blast
qed


lemma unclean_is_redirected:
  "\<not> routed req_unclean \<and>
   ServeMux cfg0 env0 req_unclean (fresh, w0) =
     (\<lparr>hdr = [''Location'' \<mapsto> ''/upload''], status = Some 301, written = []\<rparr>, w0)"
  by (simp add: ServeMux_def routed_def req_unclean_def req_nokey_def req_mixed_def cleanPath_def
      Clean_rooted_def env0_def WriteHeader_def Header_Set_def fresh_def)



text \<open>
  C5. An authenticated POST to \<^verbatim>\<open>/upload\<close> whose form parses is answered with 400
  and "At least 1 image required" when the field \<^verbatim>\<open>images\<close> holds no file, and
  with 400 and "Maximum 5 images allowed" when it holds more than five. In both
  cases the world is left as it was: no call to the backend, no identifier drawn.
\<close>

theorem wrong_file_count_is_rejected:
  assumes "Path r = ''/upload''" and "Method r = ''POST''" and "authenticated cfg r"
    and "images_of r = Some files"
  shows "(files = [] \<longrightarrow>
            ServeMux cfg e r (fresh, w) = (api_reply 400 [] [] ''At least 1 image required'', w)) \<and>
         (5 < length files \<longrightarrow>
            ServeMux cfg e r (fresh, w) = (api_reply 400 [] [] ''Maximum 5 images allowed'', w))"
  using assms
  by (auto simp: images_of_def ServeMux_upload authMiddleware_pass uploadHandler_def
      sendJSONMulti_fresh split: sum.splits)

theorem wrong_file_count_is_rejected_witness:
  "Path req_none = ''/upload'' \<and> Method req_none = ''POST'' \<and> authenticated cfg0 req_none \<and>
   images_of req_none = Some [] \<and>
   ServeMux cfg0 env0 req_none (fresh, w0) = (api_reply 400 [] [] ''At least 1 image required'', w0) \<and>
   Path req_six = ''/upload'' \<and> Method req_six = ''POST'' \<and> authenticated cfg0 req_six \<and>
   length (the (images_of req_six)) = 6 \<and>
   ServeMux cfg0 env0 req_six (fresh, w0) = (api_reply 400 [] [] ''Maximum 5 images allowed'', w0)"
proof -
  have a: "authenticated cfg0 req_none" "authenticated cfg0 req_six"
    by (simp_all add: with_key_authenticated req_none_def req_six_def)
  have p: "Path req_none = ''/upload''" "Method req_none = ''POST''"
    "Path req_six = ''/upload''" "Method req_six = ''POST''"
    by (simp_all add: req_none_def req_six_def)
  show ?thesis
    using a p images_none images_six
      wrong_file_count_is_rejected [OF p(1) p(2) a(1) images_none, of env0 w0]
      wrong_file_count_is_rejected [OF p(3) p(4) a(2) images_six, of env0 w0]
    by simp
qed

text \<open>
  C9. An authenticated GET to the path \<^verbatim>\<open>/\<close> is answered with status 200 and the
  JSON object \<^verbatim>\<open>{success: true, message: "successfully connect"}\<close>. The world is
  left as it was, and the answer is the same in every world and environment.
\<close>

theorem health_check_answers:
  assumes "Path r = ''/''" and "Method r = ''GET''" and "authenticated cfg r"
  shows "ServeMux cfg e r (fresh, w) = (healthy, w) \<and>
         status healthy = Some 200 \<and>
         map to_json (written healthy) =
           [JObj [(''success'', JBool True), (''message'', JStr ''successfully connect'')]]"
  using assms
  by (simp add: ServeMux_root authMiddleware_pass healthHandler_def healthy_def Encode_def
      WriteHeader_def Header_Set_def fresh_def to_json_def)

theorem health_check_answers_witness:
  "Path req_health = ''/'' \<and> Method req_health = ''GET'' \<and> authenticated cfg0 req_health \<and>
   ServeMux cfg0 env0 req_health (fresh, w0) = (healthy, w0) \<and>
   status (fst (ServeMux cfg0 env0 req_health (fresh, w0))) = Some 200"
proof -
  have h: "Path req_health = ''/''" "Method req_health = ''GET''" "authenticated cfg0 req_health"
    by (simp_all add: with_key_authenticated req_health_def)
  show ?thesis
    using h health_check_answers [OF h, of env0 w0] by simp
qed

lemma contributions_entries: "list_all2 entry_of files (contributions cfg e files w)"
proof (induction files arbitrary: w)
  case Nil
  then show ?case by simp
next
  case (Cons fh files)
  obtain us ms w1 where b: "loop_body cfg e fh ([], [], w) = (us, ms, w1)"
    by (metis prod_cases3)
  have "entry_of fh (us, ms)"
    using b by (cases rule: loop_body_cases [of fh cfg e "[]" "[]" w]) (auto simp: entry_of_def)
  with b Cons.IH show ?case by simp
qed

lemma concat_fst_length:
  "(\<And>c. c \<in> set cs \<Longrightarrow> length (fst c) + length (snd c) = 1) \<Longrightarrow>
   length (concat (map fst cs)) = length (filter (\<lambda>c. fst c \<noteq> []) cs)"
proof (induction cs)
  case Nil
  then show ?case by simp
next
  case (Cons c cs)
  have "length (fst c) + length (snd c) = 1"
    using Cons.prems by simp
  then have "length (fst c) = (if fst c = [] then 0 else 1)"
    by (cases "fst c") auto
  with Cons show ?case by simp
qed

lemma contributions_successes:
  "length (concat (map fst (contributions cfg e files w))) =
   length (filter (\<lambda>c. fst c \<noteq> []) (contributions cfg e files w))"
  by (rule concat_fst_length) (rule contributions_one)

lemma serve_accepted_contributions:
  assumes "accepted cfg r files"
  shows "\<exists>st msg. fst (ServeMux cfg e r (fresh, w)) =
     api_reply st (concat (map fst (contributions cfg e files w)))
       (concat (map snd (contributions cfg e files w))) msg"
proof -
  obtain urls failed w' where run: "range_files cfg e files ([], [], w) = (urls, failed, w')"
    by (metis prod_cases3)
  from serve_accepted_reply [OF assms run] obtain st msg
    where "ServeMux cfg e r (fresh, w) = (api_reply st urls failed msg, w')"
    by blast
  with range_files_contributions [OF run]
  have "fst (ServeMux cfg e r (fresh, w)) =
     api_reply st (concat (map fst (contributions cfg e files w)))
       (concat (map snd (contributions cfg e files w))) msg"
    by simp
  then show ?thesis by blast
qed

lemma images_one: "images_of req_one = Some [in_memory ''a.png'' ''AA'']"
  by (simp add: images_of_def req_one_def eval_defs)

lemma images_gif: "images_of req_gif = Some [in_memory ''b.gif'' ''BB'']"
  by (simp add: images_of_def req_gif_def eval_defs)

lemma accepted_one: "accepted cfg0 req_one [in_memory ''a.png'' ''AA'']"
  by (simp add: accepted_def images_one)
     (simp add: req_one_def authenticated_def Get_def with_key_def cfg0_def)

lemma accepted_gif: "accepted cfg0 req_gif [in_memory ''b.gif'' ''BB'']"
  by (simp add: accepted_def images_gif)
     (simp add: req_gif_def authenticated_def Get_def with_key_def cfg0_def)

lemma contributions_mixed:
  "contributions cfg0 env0 files_mixed w0 =
     [([''https://cdn.example/uploads/id0.png''], []), ([], [''b.gif: Invalid type'']),
      ([], [''c.JPG: Upload failed'']), ([''https://cdn.example/uploads/id2.webp''], [])]"
  by (simp add: files_mixed_def eval_defs)

lemma contributions_one_png:
  "contributions cfg0 env0 [in_memory ''a.png'' ''AA''] w0 =
     [([''https://cdn.example/uploads/id0.png''], [])]"
  by (simp add: eval_defs)

lemma contributions_gif:
  "contributions cfg0 env0 [in_memory ''b.gif'' ''BB''] w0 = [([], [''b.gif: Invalid type''])]"
  by (simp add: eval_defs)

lemma mixed_urls:
  "concat (map fst (contributions cfg0 env0 files_mixed w0)) =
     [''https://cdn.example/uploads/id0.png'', ''https://cdn.example/uploads/id2.webp'']"
  by (simp add: contributions_mixed)

lemma mixed_failed:
  "concat (map snd (contributions cfg0 env0 files_mixed w0)) =
     [''b.gif: Invalid type'', ''c.JPG: Upload failed'']"
  by (simp add: contributions_mixed)

lemma mixed_message:
  "itoa (length [''https://cdn.example/uploads/id0.png'', ''https://cdn.example/uploads/id2.webp''])
     @ '' of '' @ itoa (length files_mixed) @ '' images uploaded'' = ''2 of 4 images uploaded''"
  by (simp add: files_mixed_def itoa.simps digit_def)

lemma one_message:
  "itoa (length [in_memory ''a.png'' ''AA'']) @ '' image(s) uploaded successfully'' =
     ''1 image(s) uploaded successfully''"
  by (simp add: itoa.simps digit_def)

text \<open>
  C3. The answer to an accepted upload request with N files follows the outcomes of
  the files. When every file added a URL: status 200, "N image(s) uploaded
  successfully", no failure. When some file added a URL and some file a failure:
  status 207, "k of N images uploaded" with k the number of files that added a URL,
  both lists non-empty. When every file added a failure: status 400, "All uploads
  failed", the N failures listed.
\<close>

theorem response_follows_outcomes:
  fixes cfg e r files w
  defines "cs \<equiv> contributions cfg e files w"
  defines "urls \<equiv> concat (map fst cs)" and "failed \<equiv> concat (map snd cs)"
  assumes "accepted cfg r files"
  shows "((\<forall>c\<in>set cs. snd c = []) \<longrightarrow>
            fst (ServeMux cfg e r (fresh, w)) =
              api_reply 200 urls [] (itoa (length files) @ '' image(s) uploaded successfully'') \<and>
            length urls = length files) \<and>
         ((\<exists>c\<in>set cs. fst c \<noteq> []) \<and> (\<exists>c\<in>set cs. snd c \<noteq> []) \<longrightarrow>
            fst (ServeMux cfg e r (fresh, w)) =
              api_reply 207 urls failed
                (itoa (length urls) @ '' of '' @ itoa (length files) @ '' images uploaded'') \<and>
            length urls = length (filter (\<lambda>c. fst c \<noteq> []) cs) \<and>
            urls \<noteq> [] \<and> failed \<noteq> []) \<and>
         ((\<forall>c\<in>set cs. fst c = []) \<longrightarrow>
            fst (ServeMux cfg e r (fresh, w)) = api_reply 400 [] failed ''All uploads failed'' \<and>
            length failed = length files \<and> failed \<noteq> [])"
proof -
  obtain us ms w' where run: "range_files cfg e files ([], [], w) = (us, ms, w')"
    by (metis prod_cases3)
  from range_files_contributions [OF run] have eq: "us = urls" "ms = failed"
    by (simp_all add: urls_def failed_def cs_def)
  from range_files_count [OF run] eq
  have total: "length urls + length failed = length files"
    by simp
  have n: "files \<noteq> []"
    using assms(4) by (auto simp: accepted_def)
  have empty_urls: "urls = [] \<longleftrightarrow> (\<forall>c\<in>set cs. fst c = [])"
    and empty_failed: "failed = [] \<longleftrightarrow> (\<forall>c\<in>set cs. snd c = [])"
    by (auto simp: urls_def failed_def)
  have k: "length urls = length (filter (\<lambda>c. fst c \<noteq> []) cs)"
    unfolding urls_def cs_def by (rule contributions_successes)
  note reply = serve_accepted [OF assms(4) run, unfolded eq]
  show ?thesis
  proof (intro conjI impI)
    assume a: "\<forall>c\<in>set cs. snd c = []"
    then have f: "failed = []" using empty_failed by simp
    with total n have u: "urls \<noteq> []" "length urls = length files" by auto
    from reply f u show "fst (ServeMux cfg e r (fresh, w)) =
        api_reply 200 urls [] (itoa (length files) @ '' image(s) uploaded successfully'')"
      by simp
    from u show "length urls = length files" by simp
  next
    assume a: "(\<exists>c\<in>set cs. fst c \<noteq> []) \<and> (\<exists>c\<in>set cs. snd c \<noteq> [])"
    then have u: "urls \<noteq> []" and f: "failed \<noteq> []"
      using empty_urls empty_failed by auto
    from reply u f show "fst (ServeMux cfg e r (fresh, w)) =
        api_reply 207 urls failed
          (itoa (length urls) @ '' of '' @ itoa (length files) @ '' images uploaded'')"
      by simp
    from k show "length urls = length (filter (\<lambda>c. fst c \<noteq> []) cs)" .
    from u show "urls \<noteq> []" .
    from f show "failed \<noteq> []" .
  next
    assume a: "\<forall>c\<in>set cs. fst c = []"
    then have u: "urls = []" using empty_urls by simp
    from reply u show "fst (ServeMux cfg e r (fresh, w)) =
        api_reply 400 [] failed ''All uploads failed''"
      by simp
    from total u show "length failed = length files" by simp
    with n show "failed \<noteq> []" by auto
  qed
qed

theorem response_follows_outcomes_witness:
  "accepted cfg0 req_mixed files_mixed \<and>
   fst (ServeMux cfg0 env0 req_mixed (fresh, w0)) =
     api_reply 207
       [''https://cdn.example/uploads/id0.png'', ''https://cdn.example/uploads/id2.webp'']
       [''b.gif: Invalid type'', ''c.JPG: Upload failed''] ''2 of 4 images uploaded'' \<and>
   accepted cfg0 req_one [in_memory ''a.png'' ''AA''] \<and>
   fst (ServeMux cfg0 env0 req_one (fresh, w0)) =
     api_reply 200 [''https://cdn.example/uploads/id0.png''] []
       ''1 image(s) uploaded successfully'' \<and>
   accepted cfg0 req_gif [in_memory ''b.gif'' ''BB''] \<and>
   fst (ServeMux cfg0 env0 req_gif (fresh, w0)) =
     api_reply 400 [] [''b.gif: Invalid type''] ''All uploads failed''"
proof -
  have some: "(\<exists>c\<in>set (contributions cfg0 env0 files_mixed w0). fst c \<noteq> []) \<and>
      (\<exists>c\<in>set (contributions cfg0 env0 files_mixed w0). snd c \<noteq> [])"
    by (simp add: contributions_mixed)
  have "fst (ServeMux cfg0 env0 req_mixed (fresh, w0)) =
     api_reply 207
       [''https://cdn.example/uploads/id0.png'', ''https://cdn.example/uploads/id2.webp'']
       [''b.gif: Invalid type'', ''c.JPG: Upload failed''] ''2 of 4 images uploaded''"
    using some
      response_follows_outcomes [OF accepted_mixed, of env0 w0, unfolded mixed_urls mixed_failed
        mixed_message]
    by blast
  moreover have all: "\<forall>c\<in>set (contributions cfg0 env0 [in_memory ''a.png'' ''AA''] w0). snd c = []"
    by (subst contributions_one_png) simp
  have "fst (ServeMux cfg0 env0 req_one (fresh, w0)) =
     api_reply 200 [''https://cdn.example/uploads/id0.png''] []
       ''1 image(s) uploaded successfully''"
    using all
      response_follows_outcomes [OF accepted_one, of env0 w0, unfolded one_message]
    unfolding contributions_one_png by simp
  moreover have none: "\<forall>c\<in>set (contributions cfg0 env0 [in_memory ''b.gif'' ''BB''] w0). fst c = []"
    by (subst contributions_gif) simp
  have "fst (ServeMux cfg0 env0 req_gif (fresh, w0)) =
     api_reply 400 [] [''b.gif: Invalid type''] ''All uploads failed''"
    using none response_follows_outcomes [OF accepted_gif, of env0 w0]
    unfolding contributions_gif by simp
  ultimately show ?thesis
    using accepted_mixed accepted_one accepted_gif by blast
qed

text \<open>
  C10. In the answer to an accepted upload request, \<^verbatim>\<open>urls\<close> is the concatenation,
  in the order of the files, of what each file added to it, and \<^verbatim>\<open>failed\<close>
  likewise: there is one entry per file, the entry of a file is one URL or one
  failure naming that file, and no entry is moved before an entry of an earlier file.
\<close>

theorem outcome_lists_keep_file_order:
  assumes "accepted cfg r files"
  shows "\<exists>resp. written (fst (ServeMux cfg e r (fresh, w))) = [ApiJSON resp] \<and>
           URLs resp = concat (map fst (contributions cfg e files w)) \<and>
           Failed resp = concat (map snd (contributions cfg e files w)) \<and>
           list_all2 entry_of files (contributions cfg e files w)"
proof -
  from serve_accepted_contributions [OF assms, of e w] obtain st msg
    where "fst (ServeMux cfg e r (fresh, w)) =
      api_reply st (concat (map fst (contributions cfg e files w)))
        (concat (map snd (contributions cfg e files w))) msg"
    by blast
  then show ?thesis
    by (simp add: api_reply_def contributions_entries)
qed

theorem outcome_lists_keep_file_order_witness:
  "accepted cfg0 req_mixed files_mixed \<and>
   contributions cfg0 env0 files_mixed w0 =
     [([''https://cdn.example/uploads/id0.png''], []), ([], [''b.gif: Invalid type'']),
      ([], [''c.JPG: Upload failed'']), ([''https://cdn.example/uploads/id2.webp''], [])] \<and>
   (\<exists>resp. written (fst (ServeMux cfg0 env0 req_mixed (fresh, w0))) = [ApiJSON resp] \<and>
      URLs resp =
        [''https://cdn.example/uploads/id0.png'', ''https://cdn.example/uploads/id2.webp''] \<and>
      Failed resp = [''b.gif: Invalid type'', ''c.JPG: Upload failed''])"
  using accepted_mixed contributions_mixed
    outcome_lists_keep_file_order [OF accepted_mixed, of env0 w0, unfolded mixed_urls mixed_failed]
  by blast

subsection \<open>Extensions and content types\<close>

lemma ext_scan_shape:
  "ext_scan r seen = [] \<or>
   (\<exists>t. ext_scan r seen = CHR ''.'' # t @ seen \<and> CHR ''.'' \<notin> set t \<and> CHR ''/'' \<notin> set t)"
proof (induction r arbitrary: seen)
  case Nil
  then show ?case by simp
next
  case (Cons c cs)
  consider "c = CHR ''/''" | "c = CHR ''.''" | "c \<noteq> CHR ''/''" "c \<noteq> CHR ''.''"
    by blast
  then show ?case
  proof cases
    case 1
    then show ?thesis by simp
  next
    case 2
    then show ?thesis by simp
  next
    case 3
    from Cons.IH [of "c # seen"] show ?thesis
    proof
      assume "ext_scan cs (c # seen) = []"
      with 3 show ?thesis by simp
    next
      assume "\<exists>t. ext_scan cs (c # seen) = CHR ''.'' # t @ c # seen \<and>
        CHR ''.'' \<notin> set t \<and> CHR ''/'' \<notin> set t"
      then obtain t where t: "ext_scan cs (c # seen) = CHR ''.'' # t @ c # seen"
        "CHR ''.'' \<notin> set t" "CHR ''/'' \<notin> set t"
        by blast
      with 3 have "ext_scan (c # cs) seen = CHR ''.'' # (t @ [c]) @ seen \<and>
        CHR ''.'' \<notin> set (t @ [c]) \<and> CHR ''/'' \<notin> set (t @ [c])"
        by simp
      then show ?thesis by blast
    qed
  qed
qed

lemma ext_scan_found:
  "CHR ''.'' \<notin> set t \<Longrightarrow> CHR ''/'' \<notin> set t \<Longrightarrow>
   ext_scan (rev t @ CHR ''.'' # ys) seen = CHR ''.'' # t @ seen"
  by (induction t arbitrary: seen rule: rev_induct) auto

lemma Ext_append_Ext: "Ext name \<noteq> [] \<Longrightarrow> Ext (pre @ Ext name) = Ext name"
proof -
  assume "Ext name \<noteq> []"
  with ext_scan_shape [of "rev name" "[]"] obtain t
    where t: "Ext name = CHR ''.'' # t" "CHR ''.'' \<notin> set t" "CHR ''/'' \<notin> set t"
    by (auto simp: Ext_def)
  from ext_scan_found [OF t(2,3), of "rev pre" "[]"] t(1) show ?thesis
    by (simp add: Ext_def)
qed

lemma allowed_ext_nonempty: "allowed_ext name \<Longrightarrow> Ext name \<noteq> []"
  by (auto simp: allowed_ext_def ToLower_def)

lemma detectContentType_key:
  "allowed_ext name \<Longrightarrow> detectContentType (pre @ Ext name) = detectContentType name"
  by (simp add: detectContentType_def Ext_append_Ext allowed_ext_nonempty)

lemma detectContentType_allowed:
  "allowed_ext name \<Longrightarrow>
   detectContentType name \<in> {''image/jpeg'', ''image/png'', ''image/webp''}"
  by (auto simp: allowed_ext_def detectContentType_def)

lemma put_of_content_type:
  "allowed_ext (Filename fh) \<Longrightarrow>
   ContentType (put_of cfg e k fh) = detectContentType (Filename fh)"
  using detectContentType_key [of "Filename fh" "''uploads/'' @ uuid_New e k"]
  by (simp add: put_of_def)

lemma sendable_iff:
  "sendable fh \<longleftrightarrow> allowed_ext (Filename fh) \<and> Open fh = Inr (content fh)"
  by (auto simp: sendable_def isAllowedImage_ext Open_def split: sum.splits)

lemma expected_puts_content_types:
  "p \<in> set (expected_puts cfg e k files) \<Longrightarrow>
   ContentType p = detectContentType (Key p) \<and>
   ContentType p \<in> {''image/jpeg'', ''image/png'', ''image/webp''}"
proof (induction files arbitrary: k)
  case Nil
  then show ?case by simp
next
  case (Cons fh files)
  show ?case
  proof (cases "sendable fh")
    case True
    then have a: "allowed_ext (Filename fh)" by (simp add: sendable_iff)
    have "ContentType (put_of cfg e k fh) = detectContentType (Key (put_of cfg e k fh))"
      by (simp add: put_of_def)
    moreover have "ContentType (put_of cfg e k fh) \<in> {''image/jpeg'', ''image/png'', ''image/webp''}"
      using put_of_content_type [OF a] detectContentType_allowed [OF a] by simp
    ultimately show ?thesis
      using Cons True by auto
  next
    case False
    with Cons.prems have "p \<in> set (expected_puts cfg e k files)" by simp
    then show ?thesis by (rule Cons.IH)
  qed
qed

lemma expected_puts_ignore_bytes:
  "map ContentType (expected_puts cfg e k (map (\<lambda>fh. fh\<lparr>content := bytes fh\<rparr>) files)) =
   map ContentType (expected_puts cfg e k files)"
  by (induction files arbitrary: k)
     (auto simp: sendable_def isAllowedImage_def Open_def put_of_def)

lemma expected_puts_bodies:
  "map PutBody (expected_puts cfg e k files) =
   map content (filter (\<lambda>fh. allowed_ext (Filename fh) \<and> Open fh = Inr (content fh)) files)"
  by (induction files arbitrary: k) (auto simp: sendable_iff put_of_def)

lemma serve_accepted_puts:
  assumes "accepted cfg r files"
  shows "puts (snd (ServeMux cfg e r (fresh, w))) = puts w @ expected_puts cfg e (drawn w) files"
proof -
  obtain urls failed w' where run: "range_files cfg e files ([], [], w) = (urls, failed, w')"
    by (metis prod_cases3)
  from serve_accepted_reply [OF assms run] range_files_puts [OF run] show ?thesis
    by auto
qed

text \<open>
  C8. The content type of every call to the backend is \<^verbatim>\<open>detectContentType\<close> of the
  storage key, which depends on the key only through its lowered extension:
  \<^verbatim>\<open>.jpg\<close> and \<^verbatim>\<open>.jpeg\<close> give image/jpeg, \<^verbatim>\<open>.png\<close> gives image/png,
  \<^verbatim>\<open>.webp\<close> gives image/webp. For an accepted request the content types sent
  are among these three, they are those of the files' own extensions, and they stay
  the same when the bytes of the files are replaced by any others.
\<close>

theorem content_type_comes_from_extension:
  "(ToLower (Ext k1) = ToLower (Ext k2) \<longrightarrow> detectContentType k1 = detectContentType k2) \<and>
   (ToLower (Ext k1) = ''.jpg'' \<longrightarrow> detectContentType k1 = ''image/jpeg'') \<and>
   (ToLower (Ext k1) = ''.jpeg'' \<longrightarrow> detectContentType k1 = ''image/jpeg'') \<and>
   (ToLower (Ext k1) = ''.png'' \<longrightarrow> detectContentType k1 = ''image/png'') \<and>
   (ToLower (Ext k1) = ''.webp'' \<longrightarrow> detectContentType k1 = ''image/webp'') \<and>
   (allowed_ext (Filename fh) \<longrightarrow>
      ContentType (put_of cfg e k fh) = detectContentType (Filename fh)) \<and>
   (accepted cfg r files \<longrightarrow>
      puts (snd (ServeMux cfg e r (fresh, w))) = puts w @ expected_puts cfg e (drawn w) files \<and>
      (\<forall>p\<in>set (expected_puts cfg e (drawn w) files).
         ContentType p = detectContentType (Key p) \<and>
         ContentType p \<in> {''image/jpeg'', ''image/png'', ''image/webp''}) \<and>
      map ContentType
        (expected_puts cfg e (drawn w) (map (\<lambda>fh. fh\<lparr>content := bytes fh\<rparr>) files)) =
      map ContentType (expected_puts cfg e (drawn w) files))"
proof (intro conjI impI ballI)
  show "ToLower (Ext k1) = ToLower (Ext k2) \<Longrightarrow> detectContentType k1 = detectContentType k2"
    by (simp add: detectContentType_def)
  show "ToLower (Ext k1) = ''.jpg'' \<Longrightarrow> detectContentType k1 = ''image/jpeg''"
    by (simp add: detectContentType_def)
  show "ToLower (Ext k1) = ''.jpeg'' \<Longrightarrow> detectContentType k1 = ''image/jpeg''"
    by (simp add: detectContentType_def)
  show "ToLower (Ext k1) = ''.png'' \<Longrightarrow> detectContentType k1 = ''image/png''"
    by (simp add: detectContentType_def)
  show "ToLower (Ext k1) = ''.webp'' \<Longrightarrow> detectContentType k1 = ''image/webp''"
    by (simp add: detectContentType_def)
  show "allowed_ext (Filename fh) \<Longrightarrow>
      ContentType (put_of cfg e k fh) = detectContentType (Filename fh)"
    by (rule put_of_content_type)
  show "accepted cfg r files \<Longrightarrow>
      puts (snd (ServeMux cfg e r (fresh, w))) = puts w @ expected_puts cfg e (drawn w) files"
    by (rule serve_accepted_puts)
  show "\<And>p. p \<in> set (expected_puts cfg e (drawn w) files) \<Longrightarrow>
      ContentType p = detectContentType (Key p)"
    by (simp add: expected_puts_content_types)
  show "\<And>p. p \<in> set (expected_puts cfg e (drawn w) files) \<Longrightarrow>
      ContentType p \<in> {''image/jpeg'', ''image/png'', ''image/webp''}"
    using expected_puts_content_types by blast
  show "map ContentType
        (expected_puts cfg e (drawn w) (map (\<lambda>fh. fh\<lparr>content := bytes fh\<rparr>) files)) =
      map ContentType (expected_puts cfg e (drawn w) files)"
    by (rule expected_puts_ignore_bytes)
qed


lemma expected_puts_mixed:
  "expected_puts cfg0 env0 (drawn w0) files_mixed =
     [\<lparr>Bucket = ''bucket'', Key = ''uploads/id0.png'', PutBody = ''AA'',
       ContentType = ''image/png''\<rparr>,
      \<lparr>Bucket = ''bucket'', Key = ''uploads/id1.JPG'', PutBody = ''CC'',
       ContentType = ''image/jpeg''\<rparr>,
      \<lparr>Bucket = ''bucket'', Key = ''uploads/id2.webp'', PutBody = ''DD'',
       ContentType = ''image/webp''\<rparr>]"
  by (simp add: files_mixed_def sendable_def put_of_def eval_defs)

theorem content_type_comes_from_extension_witness:
  "ToLower (Ext ''uploads/id1.JPG'') = ''.jpg'' \<and>
   detectContentType ''uploads/id1.JPG'' = ''image/jpeg'' \<and>
   accepted cfg0 req_mixed files_mixed \<and>
   map ContentType (puts (snd (ServeMux cfg0 env0 req_mixed (fresh, w0)))) =
     [''image/png'', ''image/jpeg'', ''image/webp'']"
proof -
  note t = content_type_comes_from_extension
    [of "''uploads/id1.JPG''" "''uploads/id1.JPG''" "in_memory ''c.JPG'' ''CC''" cfg0 env0 1
      req_mixed files_mixed w0 "\<lambda>fh. []"]
  have x: "ToLower (Ext ''uploads/id1.JPG'') = ''.jpg''"
    by (simp add: Ext_def ToLower_def lower_byte_def)
  with t have "detectContentType ''uploads/id1.JPG'' = ''image/jpeg''"
    by blast
  moreover from t accepted_mixed
  have "puts (snd (ServeMux cfg0 env0 req_mixed (fresh, w0))) =
      puts w0 @ expected_puts cfg0 env0 (drawn w0) files_mixed"
    by blast
  then have "map ContentType (puts (snd (ServeMux cfg0 env0 req_mixed (fresh, w0)))) =
      [''image/png'', ''image/jpeg'', ''image/webp'']"
    by (simp add: expected_puts_mixed) (simp add: w0_def)
  ultimately show ?thesis
    using x accepted_mixed by blast
qed

subsection \<open>The URLs of stored files\<close>

lemma range_files_urls:
  "range_files cfg e files (urls, failed, w) = (urls', failed', w') \<Longrightarrow> u \<in> set urls' \<Longrightarrow>
   u \<in> set urls \<or>
   (\<exists>fh\<in>set files. \<exists>k. drawn w \<le> k \<and> k < drawn w' \<and> u = url_of cfg e k fh \<and>
      put_of cfg e k fh \<in> set (puts w'))"
proof (induction files arbitrary: urls failed w)
  case Nil
  then show ?case by simp
next
  case (Cons fh files)
  obtain urls1 failed1 w1 where b: "loop_body cfg e fh (urls, failed, w) = (urls1, failed1, w1)"
    by (metis prod_cases3)
  with Cons.prems have run: "range_files cfg e files (urls1, failed1, w1) = (urls', failed', w')"
    by simp
  from range_files_puts [OF run]
  have later: "puts w' = puts w1 @ expected_puts cfg e (drawn w1) files" "drawn w1 \<le> drawn w'"
    by simp_all
  have step: "drawn w \<le> drawn w1"
    using b by (cases rule: loop_body_cases [of fh cfg e urls failed w]) auto
  from Cons.IH [OF run Cons.prems(2)] show ?case
  proof
    assume "u \<in> set urls1"
    then have "u \<in> set urls \<or>
        (u = url_of cfg e (drawn w) fh \<and> drawn w < drawn w1 \<and>
         put_of cfg e (drawn w) fh \<in> set (puts w1))"
      using b
      by (cases rule: loop_body_cases [of fh cfg e urls failed w]) (auto simp: url_of_def)
    then show ?thesis
    proof
      assume "u \<in> set urls"
      then show ?thesis by simp
    next
      assume "u = url_of cfg e (drawn w) fh \<and> drawn w < drawn w1 \<and>
         put_of cfg e (drawn w) fh \<in> set (puts w1)"
      with later have "drawn w \<le> drawn w \<and> drawn w < drawn w' \<and>
          u = url_of cfg e (drawn w) fh \<and> put_of cfg e (drawn w) fh \<in> set (puts w')"
        by auto
      then show ?thesis by auto
    qed
  next
    assume "\<exists>fh\<in>set files. \<exists>k. drawn w1 \<le> k \<and> k < drawn w' \<and> u = url_of cfg e k fh \<and>
      put_of cfg e k fh \<in> set (puts w')"
    then obtain fh' k where "fh' \<in> set files" "drawn w1 \<le> k" "k < drawn w'"
      "u = url_of cfg e k fh'" "put_of cfg e k fh' \<in> set (puts w')"
      by blast
    with step have "fh' \<in> set (fh # files) \<and> drawn w \<le> k \<and> k < drawn w' \<and>
        u = url_of cfg e k fh' \<and> put_of cfg e k fh' \<in> set (puts w')"
      by simp
    then show ?thesis by blast
  qed
qed

text \<open>
  C7. When the round of the loop for a file adds a URL, that URL is the public base
  URL, then \<^verbatim>\<open>/uploads/\<close>, then the identifier drawn in that round, then the
  extension of the file's name as it was sent; the object was put under the key
  \<^verbatim>\<open>uploads/\<close>, identifier, extension, and the identifier is used up. Every URL
  in the answer to an accepted request is of that form, for one of the files of the
  request and an identifier drawn while the request was handled.
\<close>

theorem stored_url_is_base_folder_identifier_extension:
  "(loop_body cfg e fh (urls, failed, w1) = (urls', failed', w2) \<and> urls' \<noteq> urls \<longrightarrow>
      urls' = urls @ [publicURL cfg @ ''/uploads/'' @ uuid_New e (drawn w1) @ Ext (Filename fh)] \<and>
      (\<exists>p. puts w2 = puts w1 @ [p] \<and>
           Key p = ''uploads/'' @ uuid_New e (drawn w1) @ Ext (Filename fh)) \<and>
      drawn w2 = Suc (drawn w1)) \<and>
   (accepted cfg r files \<longrightarrow>
      (\<exists>resp. written (fst (ServeMux cfg e r (fresh, w))) = [ApiJSON resp] \<and>
         (\<forall>u\<in>set (URLs resp). \<exists>fh\<in>set files. \<exists>k.
            drawn w \<le> k \<and> k < drawn (snd (ServeMux cfg e r (fresh, w))) \<and>
            u = publicURL cfg @ ''/uploads/'' @ uuid_New e k @ Ext (Filename fh) \<and>
            (\<exists>p\<in>set (puts (snd (ServeMux cfg e r (fresh, w)))).
               Key p = ''uploads/'' @ uuid_New e k @ Ext (Filename fh)))))"
proof (intro conjI impI)
  assume a: "loop_body cfg e fh (urls, failed, w1) = (urls', failed', w2) \<and> urls' \<noteq> urls"
  then show "urls' = urls @ [publicURL cfg @ ''/uploads/'' @ uuid_New e (drawn w1) @ Ext (Filename fh)]"
    by (cases rule: loop_body_cases [of fh cfg e urls failed w1]) auto
  from a show "\<exists>p. puts w2 = puts w1 @ [p] \<and>
      Key p = ''uploads/'' @ uuid_New e (drawn w1) @ Ext (Filename fh)"
    by (cases rule: loop_body_cases [of fh cfg e urls failed w1]) (auto simp: put_of_def)
  from a show "drawn w2 = Suc (drawn w1)"
    by (cases rule: loop_body_cases [of fh cfg e urls failed w1]) auto
next
  assume acc: "accepted cfg r files"
  obtain urls failed w' where run: "range_files cfg e files ([], [], w) = (urls, failed, w')"
    by (metis prod_cases3)
  from serve_accepted [OF acc run] obtain st us msg
    where reply: "ServeMux cfg e r (fresh, w) = (api_reply st us failed msg, w')"
      and us: "us = urls \<or> us = []"
    by (cases "urls = []"; cases "failed = []") auto
  have "\<exists>fh\<in>set files. \<exists>k. drawn w \<le> k \<and> k < drawn w' \<and>
      u = publicURL cfg @ ''/uploads/'' @ uuid_New e k @ Ext (Filename fh) \<and>
      (\<exists>p\<in>set (puts w'). Key p = ''uploads/'' @ uuid_New e k @ Ext (Filename fh))"
    if "u \<in> set us" for u
  proof -
    from that us have "u \<in> set urls" by auto
    from range_files_urls [OF run this] obtain fh k
      where "fh \<in> set files" "drawn w \<le> k" "k < drawn w'" "u = url_of cfg e k fh"
        "put_of cfg e k fh \<in> set (puts w')"
      by auto
    moreover have "Key (put_of cfg e k fh) = ''uploads/'' @ uuid_New e k @ Ext (Filename fh)"
      by (simp add: put_of_def)
    ultimately show ?thesis
      unfolding url_of_def by blast
  qed
  with reply show "\<exists>resp. written (fst (ServeMux cfg e r (fresh, w))) = [ApiJSON resp] \<and>
         (\<forall>u\<in>set (URLs resp). \<exists>fh\<in>set files. \<exists>k.
            drawn w \<le> k \<and> k < drawn (snd (ServeMux cfg e r (fresh, w))) \<and>
            u = publicURL cfg @ ''/uploads/'' @ uuid_New e k @ Ext (Filename fh) \<and>
            (\<exists>p\<in>set (puts (snd (ServeMux cfg e r (fresh, w)))).
               Key p = ''uploads/'' @ uuid_New e k @ Ext (Filename fh)))"
    by (simp add: api_reply_def)
qed

lemma round_png:
  "loop_body cfg0 env0 (in_memory ''photo.PNG'' ''AA'') ([], [], w0) =
     ([''https://cdn.example/uploads/id0.PNG''], [],
      \<lparr>puts = [\<lparr>Bucket = ''bucket'', Key = ''uploads/id0.PNG'', PutBody = ''AA'',
                 ContentType = ''image/png''\<rparr>],
       drawn = 1\<rparr>)"
  by (simp add: eval_defs)

theorem stored_url_is_base_folder_identifier_extension_witness:
  "loop_body cfg0 env0 (in_memory ''photo.PNG'' ''AA'') ([], [], w0) =
     ([''https://cdn.example/uploads/id0.PNG''], [],
      \<lparr>puts = [\<lparr>Bucket = ''bucket'', Key = ''uploads/id0.PNG'', PutBody = ''AA'',
                 ContentType = ''image/png''\<rparr>],
       drawn = 1\<rparr>) \<and>
   [''https://cdn.example/uploads/id0.PNG''] =
     [] @ [publicURL cfg0 @ ''/uploads/'' @ uuid_New env0 (drawn w0) @
             Ext (Filename (in_memory ''photo.PNG'' ''AA''))] \<and>
   accepted cfg0 req_mixed files_mixed \<and>
   (\<exists>resp. written (fst (ServeMux cfg0 env0 req_mixed (fresh, w0))) = [ApiJSON resp] \<and>
      URLs resp =
        [''https://cdn.example/uploads/id0.png'', ''https://cdn.example/uploads/id2.webp''])"
proof -
  note t = stored_url_is_base_folder_identifier_extension
    [of cfg0 env0 "in_memory ''photo.PNG'' ''AA''" "[]" "[]" w0
      "[''https://cdn.example/uploads/id0.PNG'']" "[]"
      "\<lparr>puts = [\<lparr>Bucket = ''bucket'', Key = ''uploads/id0.PNG'', PutBody = ''AA'',
                 ContentType = ''image/png''\<rparr>], drawn = 1\<rparr>"
      req_mixed files_mixed w0]
  have "[''https://cdn.example/uploads/id0.PNG''] \<noteq> ([] :: string list)"
    by simp
  with t round_png
  have "[''https://cdn.example/uploads/id0.PNG''] =
     [] @ [publicURL cfg0 @ ''/uploads/'' @ uuid_New env0 (drawn w0) @
             Ext (Filename (in_memory ''photo.PNG'' ''AA''))]"
    by blast
  moreover from t accepted_mixed
  have "\<exists>resp. written (fst (ServeMux cfg0 env0 req_mixed (fresh, w0))) = [ApiJSON resp]"
    by blast
  then have "\<exists>resp. written (fst (ServeMux cfg0 env0 req_mixed (fresh, w0))) = [ApiJSON resp] \<and>
      URLs resp =
        [''https://cdn.example/uploads/id0.png'', ''https://cdn.example/uploads/id2.webp'']"
    by (simp add: serve_mixed api_reply_def)
  ultimately show ?thesis
    using round_png accepted_mixed by blast
qed

subsection \<open>Which files reach the backend\<close>

lemma range_files_failed_mono:
  "range_files cfg e files (urls, failed, w) = (urls', failed', w') \<Longrightarrow>
   set failed \<subseteq> set failed'"
  using range_files_contributions by fastforce

lemma range_files_invalid:
  "range_files cfg e files (urls, failed, w) = (urls', failed', w') \<Longrightarrow>
   fh \<in> set files \<Longrightarrow> \<not> isAllowedImage fh \<Longrightarrow>
   Filename fh @ '': Invalid type'' \<in> set failed'"
proof (induction files arbitrary: urls failed w)
  case Nil
  then show ?case by simp
next
  case (Cons x files)
  obtain urls1 failed1 w1 where b: "loop_body cfg e x (urls, failed, w) = (urls1, failed1, w1)"
    by (metis prod_cases3)
  with Cons.prems have run: "range_files cfg e files (urls1, failed1, w1) = (urls', failed', w')"
    by simp
  show ?case
  proof (cases "fh = x")
    case True
    with Cons.prems(3) b have "Filename fh @ '': Invalid type'' \<in> set failed1"
      by (auto simp: loop_body_invalid)
    with range_files_failed_mono [OF run] show ?thesis by blast
  next
    case False
    with Cons.prems(2) have "fh \<in> set files" by simp
    from Cons.IH [OF run this Cons.prems(3)] show ?thesis .
  qed
qed

lemma Open_closed: "Open fh = Inr (content fh) \<or> Open fh = Inl ErrOpen"
  by (simp add: Open_def)

lemma range_files_unopened:
  "range_files cfg e files (urls, failed, w) = (urls', failed', w') \<Longrightarrow>
   fh \<in> set files \<Longrightarrow> isAllowedImage fh \<Longrightarrow> Open fh = Inl ErrOpen \<Longrightarrow>
   Filename fh @ '': Failed to open'' \<in> set failed'"
proof (induction files arbitrary: urls failed w)
  case Nil
  then show ?case by simp
next
  case (Cons x files)
  obtain urls1 failed1 w1 where b: "loop_body cfg e x (urls, failed, w) = (urls1, failed1, w1)"
    by (metis prod_cases3)
  with Cons.prems have run: "range_files cfg e files (urls1, failed1, w1) = (urls', failed', w')"
    by simp
  show ?case
  proof (cases "fh = x")
    case True
    with Cons.prems(3,4) b have "Filename fh @ '': Failed to open'' \<in> set failed1"
      by (auto simp: loop_body_unopened)
    with range_files_failed_mono [OF run] show ?thesis by blast
  next
    case False
    with Cons.prems(2) have "fh \<in> set files" by simp
    from Cons.IH [OF run this Cons.prems(3,4)] show ?thesis .
  qed
qed

lemma images_lost: "images_of req_lost = Some [file_lost]"
  by (simp add: images_of_def req_lost_def file_lost_def eval_defs)

lemma accepted_lost: "accepted cfg0 req_lost [file_lost]"
  by (simp add: accepted_def images_lost)
     (simp add: req_lost_def authenticated_def Get_def with_key_def cfg0_def)

lemma allowed_lost: "allowed_ext (Filename file_lost)"
  by (simp add: allowed_ext_def file_lost_def Ext_def ToLower_def lower_byte_def)

lemma serve_lost:
  "ServeMux cfg0 env0 req_lost (fresh, w0) =
     (api_reply 400 [] [''a.png: Failed to open''] ''All uploads failed'', w0)"
  by (simp add: req_lost_def api_reply_def eval_defs)

text \<open>
  C6, as stated, fails. The request \<open>req_lost\<close> is accepted and carries one file
  named \<^verbatim>\<open>a.png\<close>, an allowed extension; the file was spilled to disk and cannot
  be opened, so the handler makes no call to the backend.
\<close>

theorem allowed_file_not_sent_counterexample:
  "accepted cfg0 req_lost [file_lost] \<and>
   \<not> (puts (snd (ServeMux cfg0 env0 req_lost (fresh, w0))) \<noteq> puts w0 \<longleftrightarrow>
        allowed_ext (Filename file_lost))"
  by (simp add: accepted_lost allowed_lost serve_lost)

text \<open>
  C6, amended. A round of the loop calls the backend if and only if the extension of
  the file's name, lowered, is one of \<^verbatim>\<open>.jpg\<close>, \<^verbatim>\<open>.jpeg\<close>, \<^verbatim>\<open>.png\<close>,
  \<^verbatim>\<open>.webp\<close> and the file opens; it then makes the one call for that file. A
  file with any other extension adds exactly the failure "name: Invalid type" and
  leaves the world as it was; a file with an allowed extension that does not open
  adds exactly the failure "name: Failed to open" and leaves the world as it was.
  For an accepted request the bodies sent are the contents of the files that pass
  both tests, in order, and the failure of every file with another extension, and
  of every file that does not open, is in the answer.
\<close>

theorem file_sent_iff_allowed_and_opened:
  "(loop_body cfg e fh (urls, failed, w1) = (urls', failed', w2) \<longrightarrow>
      (puts w2 \<noteq> puts w1 \<longleftrightarrow> allowed_ext (Filename fh) \<and> Open fh = Inr (content fh)) \<and>
      (allowed_ext (Filename fh) \<and> Open fh = Inr (content fh) \<longrightarrow>
         puts w2 = puts w1 @ [put_of cfg e (drawn w1) fh]) \<and>
      (\<not> allowed_ext (Filename fh) \<longrightarrow>
         urls' = urls \<and> failed' = failed @ [Filename fh @ '': Invalid type''] \<and> w2 = w1) \<and>
      (allowed_ext (Filename fh) \<and> Open fh \<noteq> Inr (content fh) \<longrightarrow>
         urls' = urls \<and> failed' = failed @ [Filename fh @ '': Failed to open''] \<and> w2 = w1)) \<and>
   (accepted cfg r files \<longrightarrow>
      puts (snd (ServeMux cfg e r (fresh, w))) = puts w @ expected_puts cfg e (drawn w) files \<and>
      map PutBody (expected_puts cfg e (drawn w) files) =
        map content
          (filter (\<lambda>fh. allowed_ext (Filename fh) \<and> Open fh = Inr (content fh)) files) \<and>
      (\<exists>resp. written (fst (ServeMux cfg e r (fresh, w))) = [ApiJSON resp] \<and>
         (\<forall>fh\<in>set files. \<not> allowed_ext (Filename fh) \<longrightarrow>
            Filename fh @ '': Invalid type'' \<in> set (Failed resp)) \<and>
         (\<forall>fh\<in>set files. allowed_ext (Filename fh) \<and> Open fh \<noteq> Inr (content fh) \<longrightarrow>
            Filename fh @ '': Failed to open'' \<in> set (Failed resp))))"
proof (intro conjI impI)
  assume b: "loop_body cfg e fh (urls, failed, w1) = (urls', failed', w2)"
  show "puts w2 \<noteq> puts w1 \<longleftrightarrow> allowed_ext (Filename fh) \<and> Open fh = Inr (content fh)"
    using b
    by (cases rule: loop_body_cases [of fh cfg e urls failed w1])
       (auto simp: sendable_iff isAllowedImage_ext)
  show "puts w2 = puts w1 @ [put_of cfg e (drawn w1) fh]"
    if "allowed_ext (Filename fh) \<and> Open fh = Inr (content fh)"
    using b that
    by (cases rule: loop_body_cases [of fh cfg e urls failed w1])
       (auto simp: sendable_iff isAllowedImage_ext)
  show "urls' = urls" "failed' = failed @ [Filename fh @ '': Invalid type'']" "w2 = w1"
    if "\<not> allowed_ext (Filename fh)"
    using b that by (simp_all add: loop_body_invalid isAllowedImage_ext)
  show "urls' = urls" "failed' = failed @ [Filename fh @ '': Failed to open'']" "w2 = w1"
    if "allowed_ext (Filename fh) \<and> Open fh \<noteq> Inr (content fh)"
    using b that Open_closed [of fh]
    by (auto simp: loop_body_unopened isAllowedImage_ext)
next
  assume acc: "accepted cfg r files"
  show "puts (snd (ServeMux cfg e r (fresh, w))) = puts w @ expected_puts cfg e (drawn w) files"
    using acc by (rule serve_accepted_puts)
  show "map PutBody (expected_puts cfg e (drawn w) files) =
        map content
          (filter (\<lambda>fh. allowed_ext (Filename fh) \<and> Open fh = Inr (content fh)) files)"
    by (rule expected_puts_bodies)
  obtain us ms w' where run: "range_files cfg e files ([], [], w) = (us, ms, w')"
    by (metis prod_cases3)
  have all: "us = [] \<Longrightarrow> ms \<noteq> []"
    using range_files_count [OF run] acc by (auto simp: accepted_def)
  from serve_accepted [OF acc run] all obtain st xs msg
    where reply: "ServeMux cfg e r (fresh, w) = (api_reply st xs ms msg, w')"
    by (cases "us = []"; cases "ms = []") auto
  have "Filename fh @ '': Invalid type'' \<in> set ms"
    if "fh \<in> set files" "\<not> allowed_ext (Filename fh)" for fh
    using range_files_invalid [OF run that(1)] that(2) by (simp add: isAllowedImage_ext)
  moreover have "Filename fh @ '': Failed to open'' \<in> set ms"
    if "fh \<in> set files" "allowed_ext (Filename fh) \<and> Open fh \<noteq> Inr (content fh)" for fh
    using range_files_unopened [OF run that(1)] that(2) Open_closed [of fh]
    by (auto simp: isAllowedImage_ext)
  ultimately show "\<exists>resp. written (fst (ServeMux cfg e r (fresh, w))) = [ApiJSON resp] \<and>
         (\<forall>fh\<in>set files. \<not> allowed_ext (Filename fh) \<longrightarrow>
            Filename fh @ '': Invalid type'' \<in> set (Failed resp)) \<and>
         (\<forall>fh\<in>set files. allowed_ext (Filename fh) \<and> Open fh \<noteq> Inr (content fh) \<longrightarrow>
            Filename fh @ '': Failed to open'' \<in> set (Failed resp))"
    using reply by (simp add: api_reply_def)
qed

lemma round_gif:
  "loop_body cfg0 env0 (in_memory ''b.gif'' ''BB'') ([], [], w0) = ([], [''b.gif: Invalid type''], w0)"
  by (simp add: eval_defs)

lemma round_lost:
  "loop_body cfg0 env0 file_lost ([], [], w0) = ([], [''a.png: Failed to open''], w0)"
  by (simp add: file_lost_def eval_defs)

lemma unopened_lost: "Open file_lost \<noteq> Inr (content file_lost)"
  by (simp add: Open_def file_lost_def)

theorem file_sent_iff_allowed_and_opened_witness:
  "loop_body cfg0 env0 (in_memory ''b.gif'' ''BB'') ([], [], w0) =
     ([], [''b.gif: Invalid type''], w0) \<and>
   loop_body cfg0 env0 file_lost ([], [], w0) = ([], [''a.png: Failed to open''], w0) \<and>
   allowed_ext (Filename file_lost) \<and> Open file_lost \<noteq> Inr (content file_lost) \<and>
   [''a.png: Failed to open''] = [] @ [Filename file_lost @ '': Failed to open''] \<and>
   accepted cfg0 req_lost [file_lost] \<and>
   (\<exists>resp. written (fst (ServeMux cfg0 env0 req_lost (fresh, w0))) = [ApiJSON resp] \<and>
      Filename file_lost @ '': Failed to open'' \<in> set (Failed resp)) \<and>
   accepted cfg0 req_mixed files_mixed \<and>
   map PutBody (puts (snd (ServeMux cfg0 env0 req_mixed (fresh, w0)))) = [''AA'', ''CC'', ''DD'']"
proof -
  note g = file_sent_iff_allowed_and_opened
    [of cfg0 env0 "in_memory ''b.gif'' ''BB''" "[]" "[]" w0 "[]" "[''b.gif: Invalid type'']" w0
      req_mixed files_mixed w0]
  note l = file_sent_iff_allowed_and_opened
    [of cfg0 env0 file_lost "[]" "[]" w0 "[]" "[''a.png: Failed to open'']" w0
      req_lost "[file_lost]" w0]
  from l round_lost allowed_lost unopened_lost
  have "[''a.png: Failed to open''] = [] @ [Filename file_lost @ '': Failed to open'']"
    by blast
  moreover from l accepted_lost obtain resp
    where "written (fst (ServeMux cfg0 env0 req_lost (fresh, w0))) = [ApiJSON resp]"
      and "\<forall>fh\<in>set [file_lost]. allowed_ext (Filename fh) \<and> Open fh \<noteq> Inr (content fh) \<longrightarrow>
        Filename fh @ '': Failed to open'' \<in> set (Failed resp)"
    by blast
  then have "\<exists>resp. written (fst (ServeMux cfg0 env0 req_lost (fresh, w0))) = [ApiJSON resp] \<and>
      Filename file_lost @ '': Failed to open'' \<in> set (Failed resp)"
    using allowed_lost unopened_lost by auto
  moreover from g accepted_mixed
  have "puts (snd (ServeMux cfg0 env0 req_mixed (fresh, w0))) =
      puts w0 @ expected_puts cfg0 env0 (drawn w0) files_mixed"
    by blast
  then have "map PutBody (puts (snd (ServeMux cfg0 env0 req_mixed (fresh, w0)))) =
      [''AA'', ''CC'', ''DD'']"
    by (simp add: expected_puts_mixed) (simp add: w0_def)
  ultimately show ?thesis
    using round_gif round_lost accepted_mixed accepted_lost allowed_lost unopened_lost by blast
qed

subsection \<open>A form larger than the memory limit\<close>

text \<open>
  C4 is not what the code does. The argument of \<^verbatim>\<open>ParseMultipartForm\<close> bounds
  what is kept in memory, not what is accepted: the request \<open>req_big\<close> carries one
  image of 52428801 bytes, one more than 50 MiB; its form parses, the image is
  spilled to a temporary file, opened, and sent to the backend, and the answer is
  200.
\<close>

theorem oversize_form_is_uploaded:
  "int (length (replicate 52428801 (CHR ''x''))) > push_bit 20 50 \<and>
   images_of req_big =
     Some [\<lparr>Filename = ''a.png'', Size = 52428801, content = replicate 52428801 (CHR ''x''),
            tmpfile = True, readable = True\<rparr>] \<and>
   ServeMux cfg0 env0 req_big (fresh, w0) =
     (api_reply 200 [''https://cdn.example/uploads/id0.png''] []
        ''1 image(s) uploaded successfully'',
      \<lparr>puts = [\<lparr>Bucket = ''bucket'', Key = ''uploads/id0.png'',
                 PutBody = replicate 52428801 (CHR ''x''), ContentType = ''image/png''\<rparr>],
       drawn = 1\<rparr>)"
  by (simp add: images_of_def req_big_def api_reply_def eval_defs)

end
